theory Spec2Isabelle
  imports Complex_Main "HOL-Library.AList" "HOL-Library.Multiset"
begin

section \<open>Time values, time zones and civil dates\<close>

text \<open>
  A JavaScript \<open>Date\<close> holds a time value: a number of milliseconds since
  1970-01-01T00:00:00Z, or \<open>NaN\<close> for an invalid date. A date is modelled as
  \<open>int option\<close>, \<open>None\<close> being the invalid date. The range limit of the
  time value (8.64e15 ms on either side of the epoch) is not modelled.

  The string \<open>YYYY-MM-DD\<close> that \<open>Intl.DateTimeFormat('en-CA', ...)\<close> produces is
  represented by the number of the civil day it names, counted from 1970-01-01 (day 0).
  For four-digit years the strings and the day numbers correspond one to one,
  \<open>localeCompare\<close> on the strings is the order of the day numbers, and
  \<open>new Date(str)\<close> is midnight UTC of that day.

  What the code takes from its surroundings is collected in an environment: the time zone
  database behind \<open>Intl\<close> (for every identifier it recognises, the offset from UTC in
  milliseconds at each instant), the local time zone adjustment of the process, which
  \<open>getDate\<close> and \<open>setDate\<close> use (\<open>LocalTZA(t, isUTC)\<close> of ECMAScript), and the
  clock read by \<open>new Date()\<close>.
\<close>

datatype error = InvalidTimezone | InvalidTime

record env =
  zones :: "string \<Rightarrow> (int \<Rightarrow> int) option"
  localTZA :: "int \<Rightarrow> bool \<Rightarrow> int"
  now :: int

definition WINDOW_DAYS :: nat where
  "WINDOW_DAYS = 28"

definition msPerDay :: int where
  "msPerDay = 1000 * 60 * 60 * 24"

text \<open>
  \<open>toLocalDateString\<close>: the constructor of the formatter throws a RangeError for a time
  zone it does not know, before \<open>format\<close> is called; \<open>format\<close> throws a RangeError
  for an invalid date.
\<close>

definition toLocalDateString :: "env \<Rightarrow> int option \<Rightarrow> string \<Rightarrow> error + int" where
  "toLocalDateString e date tz =
     (case zones e tz of
        None \<Rightarrow> Inl InvalidTimezone
      | Some offset \<Rightarrow>
          (case date of
             None \<Rightarrow> Inl InvalidTime
           | Some t \<Rightarrow> Inr ((t + offset t) div msPerDay)))"

text \<open>\<open>new Date(dateStr).getTime()\<close> for a date string: midnight UTC of the day.\<close>

definition parseDateString :: "int \<Rightarrow> int" where
  "parseDateString d = d * msPerDay"

text \<open>
  \<open>d.setDate(d.getDate() - k)\<close>: the time value is moved to local time, the day is
  moved back by \<open>k\<close> with the time within the day kept, and the result is moved back to
  UTC. An invalid date stays invalid.
\<close>

definition setDateBack :: "env \<Rightarrow> int option \<Rightarrow> int \<Rightarrow> int option" where
  "setDateBack e date k =
     (case date of
        None \<Rightarrow> None
      | Some t \<Rightarrow>
          (let localTime = t + localTZA e t True;
               newDate = localTime - k * msPerDay
           in Some (newDate - localTZA e newDate False)))"

text \<open>
  \<open>Math.floor((curr.getTime() - prev.getTime()) / (1000 * 60 * 60 * 24))\<close> for two date
  strings.
\<close>

definition dayDiff :: "int \<Rightarrow> int \<Rightarrow> int" where
  "dayDiff prev cur = (parseDateString cur - parseDateString prev) div msPerDay"

text \<open>\<open>Math.round\<close>: the nearest integer, a tie going up.\<close>

definition mathRound :: "real \<Rightarrow> int" where
  "mathRound x = \<lfloor>x + 1 / 2\<rfloor>"

section \<open>Data model\<close>

text \<open>
  Modelled from the spec: the type declarations of \<open>./types\<close> (\<open>Session\<close>,
  \<open>ActiveDay\<close>, \<open>DayActivity\<close>, \<open>ConsistencyMetadata\<close>, \<open>ScoreBreakdown\<close>,
  \<open>ConsistencyScore\<close>, \<open>ScoreInput\<close>) are not among the sources. The records below
  have the fields that the specification lists in its data model, which are the fields
  that \<open>scoring.ts\<close> reads and writes. Counts and differences of days are integers,
  the components of the score and the average gap are real numbers. The \<open>id\<close> and
  \<open>type\<close> of a session are called \<open>sessionId\<close> and \<open>sessionType\<close>, the
  \<open>date\<close> and \<open>sessionCount\<close> of a chart entry \<open>chartDate\<close> and
  \<open>chartSessionCount\<close>.

  Arithmetic is exact: the rounding of floating-point operations is not modelled. The
  type \<open>jsnumber\<close> is a number that need not be finite; only the duration of a session
  has this type, since no output is computed from it.
\<close>

datatype jsnumber = Finite real | NaN | PosInfinity | NegInfinity

record Session =
  sessionId :: string
  timestamp :: "int option"
  durationSec :: "jsnumber option"
  sessionType :: "string option"

record ActiveDay =
  date :: int
  sessionCount :: int
  totalDurationSec :: jsnumber

record DayActivity =
  chartDate :: int
  hasActivity :: bool
  chartSessionCount :: int

record ConsistencyMetadata =
  totalSessions :: int
  activeDays :: int
  longestStreak :: int
  longestGap :: int
  averageGap :: real
  daysSinceLastSession :: int

record ScoreBreakdown =
  baseScore :: real
  distributionBonus :: real
  streakBonus :: real
  recencyBonus :: real

record ConsistencyScore =
  score :: int
  explanations :: "string list"
  chartData :: "DayActivity list"
  metadata :: ConsistencyMetadata
  breakdown :: ScoreBreakdown

text \<open>
  The input: \<open>referenceDate\<close> and \<open>timezone\<close> may be left out (the outer
  \<open>None\<close>).
\<close>

record ScoreInput =
  sessions :: "Session list"
  referenceDate :: "int option option"
  timezone :: "string option"

section \<open>Grouping sessions by day\<close>

text \<open>\<open>Math.max(0, Number(session.durationSec) || 0)\<close>\<close>

fun numberOrZero :: "jsnumber option \<Rightarrow> jsnumber" where
  "numberOrZero None = Finite 0"
| "numberOrZero (Some NaN) = Finite 0"
| "numberOrZero (Some x) = x"

fun mathMax0 :: "jsnumber \<Rightarrow> jsnumber" where
  "mathMax0 (Finite x) = Finite (max 0 x)"
| "mathMax0 NaN = NaN"
| "mathMax0 PosInfinity = PosInfinity"
| "mathMax0 NegInfinity = Finite 0"

fun jsAdd :: "jsnumber \<Rightarrow> jsnumber \<Rightarrow> jsnumber" where
  "jsAdd (Finite x) (Finite y) = Finite (x + y)"
| "jsAdd NaN _ = NaN"
| "jsAdd _ NaN = NaN"
| "jsAdd PosInfinity NegInfinity = NaN"
| "jsAdd NegInfinity PosInfinity = NaN"
| "jsAdd PosInfinity _ = PosInfinity"
| "jsAdd _ PosInfinity = PosInfinity"
| "jsAdd NegInfinity _ = NegInfinity"
| "jsAdd _ NegInfinity = NegInfinity"

text \<open>
  The \<open>Map\<close> from date strings to buckets is an association list in insertion order;
  \<open>AList.update\<close> is \<open>Map.set\<close>: it replaces the value of a key that is present
  where it stands and adds a new key at the end. A date that is not yet a key gets a
  bucket with zero counts; the bucket of the date is then incremented.
\<close>

fun groupLoop :: "env \<Rightarrow> string \<Rightarrow> Session list \<Rightarrow> (int \<times> ActiveDay) list
    \<Rightarrow> error + (int \<times> ActiveDay) list" where
  "groupLoop e tz [] dayMap = Inr dayMap"
| "groupLoop e tz (s # ss) dayMap =
     (case toLocalDateString e (timestamp s) tz of
        Inl err \<Rightarrow> Inl err
      | Inr dateStr \<Rightarrow>
          (let day = (case map_of dayMap dateStr of
                        None \<Rightarrow> \<lparr>date = dateStr, sessionCount = 0, totalDurationSec = Finite 0\<rparr>
                      | Some d \<Rightarrow> d);
               duration = mathMax0 (numberOrZero (durationSec s));
               day' = day\<lparr>sessionCount := sessionCount day + 1,
                         totalDurationSec := jsAdd (totalDurationSec day) duration\<rparr>
           in groupLoop e tz ss (AList.update dateStr day' dayMap)))"

definition groupSessionsByDay :: "env \<Rightarrow> Session list \<Rightarrow> string \<Rightarrow> error + ActiveDay list" where
  "groupSessionsByDay e ss tz =
     (case groupLoop e tz ss [] of
        Inl err \<Rightarrow> Inl err
      | Inr dayMap \<Rightarrow> Inr (sort_key date (map snd dayMap)))"

section \<open>Score components\<close>

definition calculateBaseScore :: "ActiveDay list \<Rightarrow> real" where
  "calculateBaseScore ads = (real (length ads) / real WINDOW_DAYS) * 60"

text \<open>The gaps between neighbouring buckets, in the order of the list.\<close>

fun dayGaps :: "ActiveDay list \<Rightarrow> int list" where
  "dayGaps (prev # cur # rest) = dayDiff (date prev) (date cur) # dayGaps (cur # rest)"
| "dayGaps _ = []"

definition calculateDistributionBonus :: "ActiveDay list \<Rightarrow> real" where
  "calculateDistributionBonus ads =
     (if length ads < 2 then 0
      else
        (let gaps = dayGaps ads;
             maxGap = Max (set gaps);
             distributionQuality = 1 - min (real_of_int maxGap / real WINDOW_DAYS) 1
         in distributionQuality * 25))"

text \<open>
  The loop of \<open>calculateStreakBonus\<close>; \<open>n\<close> is the number of iterations that are
  left.
\<close>

fun streakLoop :: "env \<Rightarrow> string \<Rightarrow> int set \<Rightarrow> nat \<Rightarrow> int \<Rightarrow> int option \<Rightarrow> error + int" where
  "streakLoop e tz activeDaySet 0 streak checkDate = Inr streak"
| "streakLoop e tz activeDaySet (Suc n) streak checkDate =
     (case toLocalDateString e checkDate tz of
        Inl err \<Rightarrow> Inl err
      | Inr dateStr \<Rightarrow>
          if dateStr \<in> activeDaySet
          then streakLoop e tz activeDaySet n (streak + 1) (setDateBack e checkDate 1)
          else if streak > 0 then Inr streak
          else streakLoop e tz activeDaySet n streak (setDateBack e checkDate 1))"

definition calculateStreakBonus :: "env \<Rightarrow> ActiveDay list \<Rightarrow> int option \<Rightarrow> string \<Rightarrow> error + real" where
  "calculateStreakBonus e ads refDate tz =
     (if length ads = 0 then Inr 0
      else
        (case toLocalDateString e refDate tz of
           Inl err \<Rightarrow> Inl err
         | Inr refStr \<Rightarrow>
             (case streakLoop e tz (set (map date ads)) WINDOW_DAYS 0
                     (Some (parseDateString refStr)) of
                Inl err \<Rightarrow> Inl err
              | Inr streak \<Rightarrow> Inr (min (real_of_int (streak * 2)) 10))))"

definition calculateRecencyBonus :: "ConsistencyMetadata \<Rightarrow> real" where
  "calculateRecencyBonus m =
     (if daysSinceLastSession m \<le> 1 then 5
      else if daysSinceLastSession m \<le> 3 then 3
      else if daysSinceLastSession m \<le> 7 then 1
      else 0)"

definition calculateScoreBreakdown :: "ActiveDay list \<Rightarrow> ConsistencyMetadata \<Rightarrow> ScoreBreakdown" where
  "calculateScoreBreakdown ads m =
     \<lparr>baseScore = calculateBaseScore ads,
      distributionBonus = calculateDistributionBonus ads,
      streakBonus = 0,
      recencyBonus = calculateRecencyBonus m\<rparr>"

section \<open>Metadata\<close>

text \<open>The scan for the longest streak, with \<open>longestStreak\<close> and \<open>currentStreak\<close>.\<close>

fun streakScan :: "ActiveDay list \<Rightarrow> int \<Rightarrow> int \<Rightarrow> int" where
  "streakScan (prev # cur # rest) longest current =
     (if dayDiff (date prev) (date cur) = 1
      then streakScan (cur # rest) (max longest (current + 1)) (current + 1)
      else streakScan (cur # rest) longest 1)"
| "streakScan _ longest current = longest"

definition calculateMetadata :: "env \<Rightarrow> ActiveDay list \<Rightarrow> int option \<Rightarrow> string
    \<Rightarrow> error + ConsistencyMetadata" where
  "calculateMetadata e ads refDate tz =
     (if length ads = 0
      then Inr \<lparr>totalSessions = 0, activeDays = 0, longestStreak = 0, longestGap = 0,
                averageGap = 0, daysSinceLastSession = int WINDOW_DAYS\<rparr>
      else
        (let total = foldl (\<lambda>sum d. sum + sessionCount d) 0 ads;
             longest = streakScan ads 1 1;
             gaps = dayGaps ads;
             lGap = (if length gaps \<noteq> 0 then Max (set gaps) else 0);
             aGap = (if length gaps \<noteq> 0
                     then real_of_int (foldl (\<lambda>s g. s + g) 0 gaps) / real (length gaps)
                     else 0);
             lastDate = parseDateString (date (last ads))
         in case toLocalDateString e refDate tz of
              Inl err \<Rightarrow> Inl err
            | Inr refStr \<Rightarrow>
                Inr \<lparr>totalSessions = total, activeDays = int (length ads),
                     longestStreak = longest, longestGap = lGap, averageGap = aGap,
                     daysSinceLastSession =
                       (parseDateString refStr - lastDate) div msPerDay\<rparr>))"

section \<open>Chart\<close>

text \<open>
  The loop of \<open>generateChartData\<close> runs \<open>i\<close> from 27 down to 0; \<open>chartLoop\<close> with
  \<open>Suc i\<close> makes the entry of \<open>i\<close> and then the entries of the smaller indices.
\<close>

fun chartLoop :: "env \<Rightarrow> string \<Rightarrow> (int \<rightharpoonup> ActiveDay) \<Rightarrow> int option \<Rightarrow> nat
    \<Rightarrow> error + DayActivity list" where
  "chartLoop e tz activeDayMap refDate 0 = Inr []"
| "chartLoop e tz activeDayMap refDate (Suc i) =
     (case toLocalDateString e (setDateBack e refDate (int i)) tz of
        Inl err \<Rightarrow> Inl err
      | Inr dateStr \<Rightarrow>
          (case chartLoop e tz activeDayMap refDate i of
             Inl err \<Rightarrow> Inl err
           | Inr chart \<Rightarrow>
               Inr (\<lparr>chartDate = dateStr,
                     hasActivity = (activeDayMap dateStr \<noteq> None),
                     chartSessionCount =
                       (case activeDayMap dateStr of None \<Rightarrow> 0 | Some day \<Rightarrow> sessionCount day)\<rparr>
                    # chart)))"

definition generateChartData :: "env \<Rightarrow> ActiveDay list \<Rightarrow> int option \<Rightarrow> string
    \<Rightarrow> error + DayActivity list" where
  "generateChartData e ads refDate tz =
     chartLoop e tz (foldl (\<lambda>m d. m(date d \<mapsto> d)) Map.empty ads) refDate WINDOW_DAYS"

section \<open>Explanations\<close>

text \<open>The decimal digits of a number, as a template literal prints an integer.\<close>

fun showNat :: "nat \<Rightarrow> string" where
  "showNat n =
     (if n < 10 then [char_of (48 + n)]
      else showNat (n div 10) @ [char_of (48 + n mod 10)])"

definition showInt :: "int \<Rightarrow> string" where
  "showInt i = (if i < 0 then ''-'' @ showNat (nat (- i)) else showNat (nat i))"

text \<open>The dash of the fourth bullet is U+2014, written here as its three bytes in UTF-8.\<close>

definition exercisedToday :: string where
  "exercisedToday =
     ''You exercised today'' @ [char_of (226::nat), char_of (128::nat), char_of (148::nat)]
       @ ''great momentum!''"

definition generateExplanations :: "ConsistencyMetadata \<Rightarrow> ScoreBreakdown \<Rightarrow> string list" where
  "generateExplanations m b =
     (let pct = mathRound ((real_of_int (activeDays m) / real WINDOW_DAYS) * 100);
          bullets1 = [''You trained '' @ showInt (activeDays m) @ '' out of 28 days (''
                        @ showInt pct @ ''%)''];
          bullets2 =
            (if activeDays m \<ge> 2
             then
               (let distPct = mathRound ((distributionBonus b / 25) * 100)
                in if distPct \<ge> 75 then bullets1 @ [''Your sessions are evenly distributed'']
                   else if distPct \<ge> 50 then bullets1 @ [''Your sessions are fairly well spaced'']
                   else bullets1 @ [''Long gaps reduce your consistency score''])
             else bullets1);
          bullets3 =
            (if longestStreak m > 1
             then bullets2 @ [''Longest streak: '' @ showInt (longestStreak m) @ '' days'']
             else bullets2);
          bullets4 =
            (if daysSinceLastSession m \<le> 3
             then bullets3 @
                    [if daysSinceLastSession m = 0 then exercisedToday
                     else ''Last session was '' @ showInt (daysSinceLastSession m) @ '' days ago'']
             else bullets3);
          bullets5 =
            (if longestGap m > 7 \<and> length bullets4 < 5
             then bullets4 @ [''Longest gap: '' @ showInt (longestGap m) @ '' days'']
             else bullets4)
      in take 5 bullets5)"

section \<open>The entry point\<close>

definition calculateConsistencyScore :: "env \<Rightarrow> ScoreInput \<Rightarrow> error + ConsistencyScore" where
  "calculateConsistencyScore e input =
     (let refDate = (case referenceDate input of None \<Rightarrow> Some (now e) | Some d \<Rightarrow> d);
          tz = (case timezone input of None \<Rightarrow> ''UTC'' | Some z \<Rightarrow> z)
      in case groupSessionsByDay e (sessions input) tz of
           Inl err \<Rightarrow> Inl err
         | Inr ads \<Rightarrow>
        (case calculateMetadata e ads refDate tz of
           Inl err \<Rightarrow> Inl err
         | Inr m \<Rightarrow>
        (case calculateStreakBonus e ads refDate tz of
           Inl err \<Rightarrow> Inl err
         | Inr streak \<Rightarrow>
        (let b = (calculateScoreBreakdown ads m)\<lparr>streakBonus := streak\<rparr>
         in case generateChartData e ads refDate tz of
              Inl err \<Rightarrow> Inl err
            | Inr chart \<Rightarrow>
                (let expl = generateExplanations m b;
                     rawScore = baseScore b + distributionBonus b + streakBonus b + recencyBonus b
                 in Inr \<lparr>score = max 0 (min 100 (mathRound rawScore)),
                         explanations = expl, chartData = chart,
                         metadata = m, breakdown = b\<rparr>)))))"

section \<open>An environment for examples\<close>

text \<open>
  The offset of \<open>America/New_York\<close> in the tz database, for instants from
  2023-11-05T06:00Z to 2025-03-09T07:00Z: daylight time (UTC\<minus>4) from
  2024-03-10T07:00Z until 2024-11-03T06:00Z, standard time (UTC\<minus>5) before and after.
  Outside that period the function is not the zone's offset.
\<close>

definition americaNewYork :: "int \<Rightarrow> int" where
  "americaNewYork t =
     (if 1710054000000 \<le> t \<and> t < 1730613600000 then - 4 * 3600000 else - 5 * 3600000)"

text \<open>
  A database with three zones: \<open>UTC\<close>, \<open>Asia/Tokyo\<close> (UTC+9, without daylight time
  since 1951) and \<open>America/New_York\<close>; every other identifier is unknown to it.
\<close>

definition exampleZones :: "string \<Rightarrow> (int \<Rightarrow> int) option" where
  "exampleZones z =
     (if z = ''UTC'' then Some (\<lambda>t. 0)
      else if z = ''Asia/Tokyo'' then Some (\<lambda>t. 9 * 3600000)
      else if z = ''America/New_York'' then Some americaNewYork
      else None)"

text \<open>A process that runs with \<open>TZ=UTC\<close>, its clock at 2024-01-15T18:00:00Z.\<close>

definition hostUTC :: env where
  "hostUTC = \<lparr>zones = exampleZones, localTZA = (\<lambda>t isUTC. 0), now = 1705341600000\<rparr>"

text \<open>A session at the given instant, with a duration of 30 seconds.\<close>

definition sessionAt :: "int \<Rightarrow> Session" where
  "sessionAt t = \<lparr>sessionId = ''s'', timestamp = Some t, durationSec = Some (Finite 30),
                   sessionType = None\<rparr>"

text \<open>
  A chart over the days from \<open>first\<close> to \<open>lastDay\<close> with one session, on the day
  \<open>active\<close>.
\<close>

definition exampleChart :: "int \<Rightarrow> int \<Rightarrow> int \<Rightarrow> DayActivity list" where
  "exampleChart first lastDay active =
     map (\<lambda>d. \<lparr>chartDate = d, hasActivity = (d = active),
                chartSessionCount = (if d = active then 1 else 0)\<rparr>) [first..lastDay]"

section \<open>The streak walk and the chart dates in the words of the specification\<close>

text \<open>
  The walk: from a civil day backwards, one day at a time, for up to \<open>n\<close> steps; an
  active day increments the counter, an inactive day ends the walk when the counter is
  positive and is passed over when it is 0. It is taken from the specification, not from
  the code, and works on civil days only.
\<close>

fun specStreakWalk :: "int set \<Rightarrow> nat \<Rightarrow> int \<Rightarrow> int \<Rightarrow> int" where
  "specStreakWalk active 0 counter day = counter"
| "specStreakWalk active (Suc n) counter day =
     (if day \<in> active then specStreakWalk active n (counter + 1) (day - 1)
      else if counter > 0 then counter
      else specStreakWalk active n counter (day - 1))"

text \<open>
  The bonus is \<open>min (counter * 2) 10\<close>, the walk starting at the civil date of the
  reference instant in the time zone.
\<close>

definition specStreakBonus :: "env \<Rightarrow> Session list \<Rightarrow> int option \<Rightarrow> string \<Rightarrow> error + real" where
  "specStreakBonus e ss refDate tz =
     (case groupSessionsByDay e ss tz of
        Inl err \<Rightarrow> Inl err
      | Inr ads \<Rightarrow>
          (case toLocalDateString e refDate tz of
             Inl err \<Rightarrow> Inl err
           | Inr refDay \<Rightarrow>
               Inr (min (real_of_int (specStreakWalk (set (map date ads)) 28 0 refDay * 2)) 10)))"

text \<open>
  The dates of the chart: the 28 civil dates up to the civil date of the reference instant,
  oldest first.
\<close>

definition specChartDates :: "env \<Rightarrow> int option \<Rightarrow> string \<Rightarrow> error + int list" where
  "specChartDates e refDate tz =
     (case toLocalDateString e refDate tz of
        Inl err \<Rightarrow> Inl err
      | Inr refDay \<Rightarrow> Inr [refDay - 27..refDay])"

section \<open>Example inputs\<close>

text \<open>One session at noon UTC on each day from \<open>first\<close> to \<open>lastDay\<close>.\<close>

definition dailySessions :: "int \<Rightarrow> int \<Rightarrow> Session list" where
  "dailySessions first lastDay =
     map (\<lambda>d. sessionAt (d * msPerDay + 12 * 3600000)) [first..lastDay]"

text \<open>
  One session at 2024-01-15T17:00Z, scored in UTC by the clock of \<open>hostUTC\<close>, and the
  result of the call.
\<close>

definition oneSessionInput :: ScoreInput where
  "oneSessionInput =
     \<lparr>sessions = [sessionAt 1705338000000], referenceDate = None, timezone = None\<rparr>"

definition oneSessionResult :: ConsistencyScore where
  "oneSessionResult =
     \<lparr>score = 9,
      explanations = [''You trained 1 out of 28 days (4%)'', exercisedToday],
      chartData = exampleChart 19710 19737 19737,
      metadata = \<lparr>totalSessions = 1, activeDays = 1, longestStreak = 1, longestGap = 0,
                   averageGap = 0, daysSinceLastSession = 0\<rparr>,
      breakdown = \<lparr>baseScore = 15 / 7, distributionBonus = 0, streakBonus = 2,
                    recencyBonus = 5\<rparr>\<rparr>"

section \<open>Notions for the proofs\<close>

text \<open>
  The civil day of a valid timestamp at a given offset function; the session count that an
  association list holds for a day; the invariant of the map of \<open>groupLoop\<close> (every key
  occurs once and is the date of its bucket); a bucket without its duration; the buckets
  that a list of days determines, without durations; and the part of
  \<open>calculateConsistencyScore\<close> that follows the grouping.
\<close>

definition dayOf :: "(int \<Rightarrow> int) \<Rightarrow> int option \<Rightarrow> int" where
  "dayOf off ts = (case ts of None \<Rightarrow> 0 | Some t \<Rightarrow> (t + off t) div msPerDay)"

definition bucketCount :: "(int \<times> ActiveDay) list \<Rightarrow> int \<Rightarrow> int" where
  "bucketCount m k = (case map_of m k of None \<Rightarrow> 0 | Some b \<Rightarrow> sessionCount b)"

definition keyed :: "(int \<times> ActiveDay) list \<Rightarrow> bool" where
  "keyed m \<longleftrightarrow> distinct (map fst m) \<and> (\<forall>k b. map_of m k = Some b \<longrightarrow> date b = k)"

definition forget :: "ActiveDay \<Rightarrow> ActiveDay" where
  "forget b = b\<lparr>totalDurationSec := Finite 0\<rparr>"

definition tally :: "int list \<Rightarrow> ActiveDay list" where
  "tally ds =
     map (\<lambda>k. \<lparr>date = k, sessionCount = int (count_list ds k), totalDurationSec = Finite 0\<rparr>)
       (sorted_list_of_set (set ds))"

definition scoreDays :: "env \<Rightarrow> ActiveDay list \<Rightarrow> int option \<Rightarrow> string
    \<Rightarrow> error + ConsistencyScore" where
  "scoreDays e ads refDate tz =
        (case calculateMetadata e ads refDate tz of
           Inl err \<Rightarrow> Inl err
         | Inr m \<Rightarrow>
        (case calculateStreakBonus e ads refDate tz of
           Inl err \<Rightarrow> Inl err
         | Inr streak \<Rightarrow>
        (let b = (calculateScoreBreakdown ads m)\<lparr>streakBonus := streak\<rparr>
         in case generateChartData e ads refDate tz of
              Inl err \<Rightarrow> Inl err
            | Inr chart \<Rightarrow>
                (let expl = generateExplanations m b;
                     rawScore = baseScore b + distributionBonus b + streakBonus b + recencyBonus b
                 in Inr \<lparr>score = max 0 (min 100 (mathRound rawScore)),
                         explanations = expl, chartData = chart,
                         metadata = m, breakdown = b\<rparr>))))"

section \<open>Errors, the empty history and the total score\<close>

declare showNat.simps [simp del]

lemma toLocalDateString_unknown_zone:
  "zones e tz = None \<Longrightarrow> toLocalDateString e d tz = Inl InvalidTimezone"
  by (simp add: toLocalDateString_def)

lemma toLocalDateString_invalid_date:
  "zones e tz = Some off \<Longrightarrow> toLocalDateString e None tz = Inl InvalidTime"
  by (simp add: toLocalDateString_def)

lemma toLocalDateString_valid:
  "zones e tz = Some off \<Longrightarrow> toLocalDateString e (Some t) tz = Inr ((t + off t) div msPerDay)"
  by (simp add: toLocalDateString_def)

lemma groupLoop_unknown_zone:
  "zones e tz = None \<Longrightarrow> ss \<noteq> [] \<Longrightarrow> groupLoop e tz ss m = Inl InvalidTimezone"
  by (cases ss) (simp_all add: toLocalDateString_unknown_zone)

lemma chartLoop_unknown_zone:
  "zones e tz = None \<Longrightarrow> chartLoop e tz m r (Suc n) = Inl InvalidTimezone"
  by (simp add: toLocalDateString_unknown_zone)

lemma calculateMetadata_Nil:
  "calculateMetadata e [] r tz =
     Inr \<lparr>totalSessions = 0, activeDays = 0, longestStreak = 0, longestGap = 0,
           averageGap = 0, daysSinceLastSession = 28\<rparr>"
  by (simp add: calculateMetadata_def WINDOW_DAYS_def)

lemma calculateStreakBonus_Nil: "calculateStreakBonus e [] r tz = Inr 0"
  by (simp add: calculateStreakBonus_def)

text \<open>
  Claim C3. Whatever the session list and the reference date, a call with a time zone
  identifier that the time zone database does not know fails with the error of the
  formatter's constructor; no other zone is used in its place. With sessions the first
  of them is formatted first; without sessions the chart is the first to format a date.
\<close>

theorem unknown_timezone_fails:
  assumes "zones e tz = None"
  shows "calculateConsistencyScore e \<lparr>sessions = ss, referenceDate = r, timezone = Some tz\<rparr>
           = Inl InvalidTimezone"
proof (cases ss)
  case Nil
  have "generateChartData e [] (case r of None \<Rightarrow> Some (now e) | Some d \<Rightarrow> d) tz = Inl InvalidTimezone"
    using assms by (simp add: generateChartData_def WINDOW_DAYS_def eval_nat_numeral toLocalDateString_unknown_zone)
  then show ?thesis
    using Nil
    by (simp add: calculateConsistencyScore_def groupSessionsByDay_def calculateMetadata_Nil
        calculateStreakBonus_Nil Let_def)
next
  case (Cons s rest)
  then have "ss \<noteq> []" by simp
  then have "groupLoop e tz ss [] = Inl InvalidTimezone"
    by (rule groupLoop_unknown_zone [OF assms])
  then show ?thesis
    by (simp add: calculateConsistencyScore_def groupSessionsByDay_def)
qed

theorem unknown_timezone_fails_witness:
  "zones hostUTC ''Mars/Olympus'' = None \<and>
   calculateConsistencyScore hostUTC
     \<lparr>sessions = [], referenceDate = None, timezone = Some ''Mars/Olympus''\<rparr>
     = Inl InvalidTimezone"
  using unknown_timezone_fails [of hostUTC "''Mars/Olympus''" "[]" None]
  by (simp add: hostUTC_def exampleZones_def)









lemma groupLoop_invalid_timestamp:
  assumes "zones e tz = Some off"
  shows "\<exists>s \<in> set ss. timestamp s = None \<Longrightarrow> groupLoop e tz ss m = Inl InvalidTime"
proof (induction ss arbitrary: m)
  case Nil
  then show ?case by simp
next
  case (Cons s ss)
  show ?case
  proof (cases "timestamp s")
    case None
    then show ?thesis
      using assms by (simp add: toLocalDateString_invalid_date)
  next
    case (Some t)
    with Cons.prems have "\<exists>s \<in> set ss. timestamp s = None" by auto
    then show ?thesis
      using assms Some Cons.IH by (simp add: toLocalDateString_valid Let_def)
  qed
qed

text \<open>
  Claim C10. A session whose timestamp is an invalid date makes the whole call fail: the
  session is not skipped, and no result is returned. With a known time zone the error is
  the one that formatting an invalid date raises.
\<close>

theorem invalid_timestamp_fails_call:
  assumes "s \<in> set (sessions input)" and "timestamp s = None"
  shows "calculateConsistencyScore e input =
           Inl (if zones e (case timezone input of None \<Rightarrow> ''UTC'' | Some z \<Rightarrow> z) = None
                then InvalidTimezone else InvalidTime)"
proof -
  define tz where "tz = (case timezone input of None \<Rightarrow> ''UTC'' | Some z \<Rightarrow> z)"
  have ne: "sessions input \<noteq> []" using assms(1) by auto
  have "groupLoop e tz (sessions input) [] =
          Inl (if zones e tz = None then InvalidTimezone else InvalidTime)"
  proof (cases "zones e tz")
    case None
    then show ?thesis using groupLoop_unknown_zone [OF None ne] by simp
  next
    case (Some off)
    then show ?thesis
      using groupLoop_invalid_timestamp [OF Some, of "sessions input" "[]"] assms by auto
  qed
  then show ?thesis
    by (simp add: calculateConsistencyScore_def groupSessionsByDay_def tz_def Let_def)
qed

theorem invalid_timestamp_fails_call_witness:
  "calculateConsistencyScore hostUTC
     \<lparr>sessions = [sessionAt 1705338000000, (sessionAt 0)\<lparr>timestamp := None\<rparr>],
      referenceDate = None, timezone = None\<rparr>
   = Inl InvalidTime"
  using invalid_timestamp_fails_call [of "(sessionAt 0)\<lparr>timestamp := None\<rparr>"
      "\<lparr>sessions = [sessionAt 1705338000000, (sessionAt 0)\<lparr>timestamp := None\<rparr>],
        referenceDate = None, timezone = None\<rparr>" hostUTC]
  by (simp add: hostUTC_def exampleZones_def)

section \<open>What grouping computes\<close>

lemma toLocalDateString_dayOf:
  "zones e tz = Some off \<Longrightarrow> ts \<noteq> None \<Longrightarrow> toLocalDateString e ts tz = Inr (dayOf off ts)"
  by (auto simp: toLocalDateString_def dayOf_def)

lemma keyed_update:
  assumes "keyed m" and "date b = k"
  shows "keyed (AList.update k b m)"
  using assms by (auto simp: keyed_def distinct_update update_conv')

lemma bucketCount_update:
  "bucketCount (AList.update k b m) j = (if j = k then sessionCount b else bucketCount m j)"
  by (simp add: bucketCount_def update_conv')

lemma groupLoop_counts:
  assumes z: "zones e tz = Some off"
  shows "\<forall>s \<in> set ss. timestamp s \<noteq> None \<Longrightarrow> keyed m \<Longrightarrow>
    \<exists>m'. groupLoop e tz ss m = Inr m' \<and> keyed m'
      \<and> fst ` set m' = fst ` set m \<union> dayOf off ` timestamp ` set ss
      \<and> (\<forall>k. bucketCount m' k
               = bucketCount m k + int (count_list (map (\<lambda>s. dayOf off (timestamp s)) ss) k))"
proof (induction ss arbitrary: m)
  case Nil
  then show ?case by simp
next
  case (Cons s ss)
  define d where "d = dayOf off (timestamp s)"
  define day where "day = (case map_of m d of
      None \<Rightarrow> \<lparr>date = d, sessionCount = 0, totalDurationSec = Finite 0\<rparr> | Some b \<Rightarrow> b)"
  define day' where "day' = day\<lparr>sessionCount := sessionCount day + 1,
      totalDurationSec := jsAdd (totalDurationSec day) (mathMax0 (numberOrZero (durationSec s)))\<rparr>"
  define m1 where "m1 = AList.update d day' m"
  have fmt: "toLocalDateString e (timestamp s) tz = Inr d"
    using Cons.prems(1) z by (simp add: toLocalDateString_dayOf d_def)
  have step: "groupLoop e tz (s # ss) m = groupLoop e tz ss m1"
    by (simp add: fmt Let_def m1_def day'_def day_def)
  have "date day = d"
    using Cons.prems(2) by (auto simp: day_def keyed_def split: option.splits)
  then have "date day' = d" by (simp add: day'_def)
  then have k1: "keyed m1"
    using Cons.prems(2) by (simp add: m1_def keyed_update)
  have "sessionCount day = bucketCount m d"
    by (simp add: day_def bucketCount_def split: option.splits)
  then have c1: "bucketCount m1 k = bucketCount m k + (if k = d then 1 else 0)" for k
    by (simp add: m1_def bucketCount_update day'_def)
  have keys1: "fst ` set m1 = insert d (fst ` set m)"
    by (simp add: m1_def dom_update)
  from Cons.prems(1) have "\<forall>s \<in> set ss. timestamp s \<noteq> None" by simp
  from Cons.IH [OF this k1] obtain m' where m':
    "groupLoop e tz ss m1 = Inr m'" "keyed m'"
    "fst ` set m' = fst ` set m1 \<union> dayOf off ` timestamp ` set ss"
    "\<forall>k. bucketCount m' k
        = bucketCount m1 k + int (count_list (map (\<lambda>s. dayOf off (timestamp s)) ss) k)"
    by blast
  have "fst ` set m' = fst ` set m \<union> dayOf off ` timestamp ` set (s # ss)"
    using m'(3) keys1 by (auto simp: d_def)
  moreover have "\<forall>k. bucketCount m' k
      = bucketCount m k + int (count_list (map (\<lambda>s. dayOf off (timestamp s)) (s # ss)) k)"
    using m'(4) c1 by (auto simp: d_def)
  ultimately show ?case
    unfolding step using m'(1,2) by blast
qed

lemma groupSessionsByDay_counts:
  assumes z: "zones e tz = Some off" and v: "\<forall>s \<in> set ss. timestamp s \<noteq> None"
  shows "\<exists>ads. groupSessionsByDay e ss tz = Inr ads
           \<and> map date ads = sorted_list_of_set (set (map (\<lambda>s. dayOf off (timestamp s)) ss))
           \<and> (\<forall>b \<in> set ads. sessionCount b
                  = int (count_list (map (\<lambda>s. dayOf off (timestamp s)) ss) (date b)))"
proof -
  define ds where "ds = map (\<lambda>s. dayOf off (timestamp s)) ss"
  have "keyed []" by (simp add: keyed_def)
  from groupLoop_counts [OF z v this] obtain m' where m':
    "groupLoop e tz ss [] = Inr m'" "keyed m'" "fst ` set m' = set ds"
    "\<forall>k. bucketCount m' k = int (count_list ds k)"
    by (auto simp: ds_def bucketCount_def image_image)
  define ads where "ads = sort_key date (map snd m')"
  have res: "groupSessionsByDay e ss tz = Inr ads"
    by (simp add: groupSessionsByDay_def m'(1) ads_def)
  have entry: "map_of m' k = Some b \<and> date b = k" if "(k, b) \<in> set m'" for k b
    using that m'(2) by (auto simp: keyed_def)
  then have keys: "map date (map snd m') = map fst m'"
    by auto
  have ms: "mset (map date ads) = mset (map fst m')"
    by (simp add: ads_def keys [symmetric] del: map_map)
  have "distinct (map fst m')"
    using m'(2) by (simp add: keyed_def)
  then have "distinct (map date ads)"
    using mset_eq_imp_distinct_iff [OF ms] by simp
  moreover have "set (map date ads) = set ds"
    using mset_eq_setD [OF ms] m'(3) by simp
  moreover have "sorted (map date ads)"
    by (simp add: ads_def sorted_sort_key)
  ultimately have dates: "map date ads = sorted_list_of_set (set ds)"
    using sorted_list_of_set.idem_if_sorted_distinct [of "map date ads"] by simp
  have "sessionCount b = int (count_list ds (date b))" if "b \<in> set ads" for b
  proof -
    from that obtain k where "(k, b) \<in> set m'"
      by (auto simp: ads_def)
    then have "map_of m' k = Some b" "date b = k"
      using entry by auto
    then show ?thesis
      using m'(4) by (auto simp: bucketCount_def dest: spec [of _ k])
  qed
  then show ?thesis
    using res dates by (auto simp: ds_def)
qed

lemma calculateConsistencyScore_scoreDays:
  "calculateConsistencyScore e input =
     (case groupSessionsByDay e (sessions input)
             (case timezone input of None \<Rightarrow> ''UTC'' | Some z \<Rightarrow> z) of
        Inl err \<Rightarrow> Inl err
      | Inr ads \<Rightarrow>
          scoreDays e ads (case referenceDate input of None \<Rightarrow> Some (now e) | Some d \<Rightarrow> d)
            (case timezone input of None \<Rightarrow> ''UTC'' | Some z \<Rightarrow> z))"
  by (simp add: calculateConsistencyScore_def scoreDays_def Let_def split: sum.splits)

lemma forget_simps [simp]:
  "date (forget b) = date b" "sessionCount (forget b) = sessionCount b"
  by (simp_all add: forget_def)

lemma dayGaps_forget: "dayGaps (map forget ads) = dayGaps ads"
  by (induction ads rule: dayGaps.induct) simp_all

lemma streakScan_forget: "streakScan (map forget ads) l c = streakScan ads l c"
  by (induction ads l c rule: streakScan.induct) simp_all

lemma total_forget:
  "foldl (\<lambda>sum d. sum + sessionCount d) a (map forget ads)
     = foldl (\<lambda>sum d. sum + sessionCount d) a ads"
  by (induction ads arbitrary: a) simp_all

lemma calculateMetadata_forget:
  "calculateMetadata e (map forget ads) r tz = calculateMetadata e ads r tz"
  by (simp add: calculateMetadata_def dayGaps_forget streakScan_forget total_forget last_map
      Let_def cong: sum.case_cong)

lemma calculateStreakBonus_forget:
  "calculateStreakBonus e (map forget ads) r tz = calculateStreakBonus e ads r tz"
  by (simp add: calculateStreakBonus_def comp_def cong: sum.case_cong)

lemma calculateScoreBreakdown_forget:
  "calculateScoreBreakdown (map forget ads) m = calculateScoreBreakdown ads m"
  by (simp add: calculateScoreBreakdown_def calculateBaseScore_def
      calculateDistributionBonus_def dayGaps_forget)

lemma activeDayMap_forget:
  "\<forall>k. m' k = map_option forget (m k) \<Longrightarrow>
   foldl (\<lambda>m d. m(date d \<mapsto> d)) m' (map forget ads) k
     = map_option forget (foldl (\<lambda>m d. m(date d \<mapsto> d)) m ads k)"
  by (induction ads arbitrary: m m') simp_all

lemma chartLoop_forget:
  "\<forall>k. m' k = map_option forget (m k) \<Longrightarrow> chartLoop e tz m' r n = chartLoop e tz m r n"
proof (induction n)
  case 0
  show ?case by simp
next
  case (Suc n)
  have "(m' k \<noteq> None) = (m k \<noteq> None)" for k
    using Suc.prems by simp
  moreover have "(case m' k of None \<Rightarrow> 0 | Some day \<Rightarrow> sessionCount day)
      = (case m k of None \<Rightarrow> 0 | Some day \<Rightarrow> sessionCount day)" for k
    using Suc.prems by (cases "m k") simp_all
  ultimately show ?case
    using Suc.IH [OF Suc.prems] by (simp cong: sum.case_cong)
qed

lemma generateChartData_forget:
  "generateChartData e (map forget ads) r tz = generateChartData e ads r tz"
  unfolding generateChartData_def
  by (rule chartLoop_forget) (simp add: activeDayMap_forget)

lemma scoreDays_forget: "scoreDays e (map forget ads) r tz = scoreDays e ads r tz"
  by (simp add: scoreDays_def calculateMetadata_forget calculateStreakBonus_forget
      calculateScoreBreakdown_forget generateChartData_forget cong: sum.case_cong)

lemma forget_tally:
  assumes "map date ads = sorted_list_of_set (set ds)"
    and "\<forall>b \<in> set ads. sessionCount b = int (count_list ds (date b))"
  shows "map forget ads = tally ds"
proof -
  have "map forget ads
      = map (\<lambda>b. \<lparr>date = date b, sessionCount = int (count_list ds (date b)),
                   totalDurationSec = Finite 0\<rparr>) ads"
    using assms(2) by (auto simp: forget_def)
  also have "\<dots> = map (\<lambda>k. \<lparr>date = k, sessionCount = int (count_list ds k),
                   totalDurationSec = Finite 0\<rparr>) (map date ads)"
    by simp
  finally show ?thesis by (simp add: tally_def assms(1))
qed

lemma groupSessionsByDay_tally:
  assumes "zones e tz = Some off" and "\<forall>s \<in> set ss. timestamp s \<noteq> None"
  shows "\<exists>ads. groupSessionsByDay e ss tz = Inr ads
           \<and> map forget ads = tally (map (dayOf off) (map timestamp ss))"
  using groupSessionsByDay_counts [OF assms]
  by (auto simp: forget_tally comp_def)

lemma tally_mset: "mset ds = mset ds' \<Longrightarrow> tally ds = tally ds'"
proof -
  assume eq: "mset ds = mset ds'"
  then have "set ds = set ds'" by (rule mset_eq_setD)
  moreover have "count_list ds k = count_list ds' k" for k
    using eq by (metis count_mset)
  ultimately show ?thesis by (simp add: tally_def)
qed

lemma groupSessionsByDay_timestamps:
  assumes "mset (map timestamp ss) = mset (map timestamp ss')"
  shows "(\<exists>err. groupSessionsByDay e ss tz = Inl err \<and> groupSessionsByDay e ss' tz = Inl err)
       \<or> (\<exists>ads ads'. groupSessionsByDay e ss tz = Inr ads \<and> groupSessionsByDay e ss' tz = Inr ads'
             \<and> map forget ads = map forget ads')"
proof (cases "zones e tz")
  case None
  show ?thesis
  proof (cases "ss = []")
    case True
    with assms have "ss' = []" by auto
    with True show ?thesis by (simp add: groupSessionsByDay_def)
  next
    case False
    with assms have "ss' \<noteq> []" by auto
    with False show ?thesis
      by (simp add: groupSessionsByDay_def groupLoop_unknown_zone [OF None])
  qed
next
  case (Some off)
  have sets: "set (map timestamp ss) = set (map timestamp ss')"
    using assms by (rule mset_eq_setD)
  show ?thesis
  proof (cases "\<exists>s \<in> set ss. timestamp s = None")
    case True
    then have "None \<in> set (map timestamp ss)" by force
    then have "None \<in> set (map timestamp ss')" using sets by simp
    then have "\<exists>s \<in> set ss'. timestamp s = None" by force
    with True show ?thesis
      by (simp add: groupSessionsByDay_def groupLoop_invalid_timestamp [OF Some])
  next
    case False
    then have v: "\<forall>s \<in> set ss. timestamp s \<noteq> None" by simp
    have "None \<notin> set (map timestamp ss)" using False by force
    then have "None \<notin> set (map timestamp ss')" using sets by simp
    then have v': "\<forall>s \<in> set ss'. timestamp s \<noteq> None" by force
    have "mset (map (dayOf off) (map timestamp ss)) = mset (map (dayOf off) (map timestamp ss'))"
      using assms by (metis mset_map)
    then have "tally (map (dayOf off) (map timestamp ss))
        = tally (map (dayOf off) (map timestamp ss'))"
      by (rule tally_mset)
    then show ?thesis
      using groupSessionsByDay_tally [OF Some v] groupSessionsByDay_tally [OF Some v']
      by auto
  qed
qed

lemma score_depends_on_timestamps:
  assumes "mset (map timestamp ss) = mset (map timestamp ss')"
  shows "calculateConsistencyScore e \<lparr>sessions = ss, referenceDate = r, timezone = z\<rparr>
       = calculateConsistencyScore e \<lparr>sessions = ss', referenceDate = r, timezone = z\<rparr>"
proof -
  define tz where "tz = (case z of None \<Rightarrow> ''UTC'' | Some t \<Rightarrow> t)"
  define ref where "ref = (case r of None \<Rightarrow> Some (now e) | Some d \<Rightarrow> d)"
  from groupSessionsByDay_timestamps [OF assms, of e tz]
  show ?thesis
  proof (elim disjE exE conjE)
    fix err
    assume "groupSessionsByDay e ss tz = Inl err" "groupSessionsByDay e ss' tz = Inl err"
    then show ?thesis
      by (simp add: calculateConsistencyScore_scoreDays tz_def)
  next
    fix ads ads'
    assume g: "groupSessionsByDay e ss tz = Inr ads" "groupSessionsByDay e ss' tz = Inr ads'"
      and f: "map forget ads = map forget ads'"
    have "scoreDays e ads ref tz = scoreDays e (map forget ads) ref tz"
      by (simp add: scoreDays_forget)
    also have "\<dots> = scoreDays e ads' ref tz"
      by (simp add: f scoreDays_forget)
    finally show ?thesis
      using g by (simp add: calculateConsistencyScore_scoreDays tz_def ref_def)
  qed
qed



text \<open>
  Claim C9. Replacing the durations of the sessions by any other values (missing, negative,
  not a number, infinite) changes nothing: the call returns the same result or fails with
  the same error. The accumulated duration of a bucket reaches no output.
\<close>

theorem durations_are_irrelevant:
  assumes "length ds = length ss"
  shows "calculateConsistencyScore e
           \<lparr>sessions = map2 (\<lambda>s d. s\<lparr>durationSec := d\<rparr>) ss ds, referenceDate = r, timezone = z\<rparr>
       = calculateConsistencyScore e \<lparr>sessions = ss, referenceDate = r, timezone = z\<rparr>"
proof (rule score_depends_on_timestamps)
  have "map timestamp (map2 (\<lambda>s d. s\<lparr>durationSec := d\<rparr>) ss ds) = map timestamp ss"
    using assms by (induction ss ds rule: list_induct2') simp_all
  then show "mset (map timestamp (map2 (\<lambda>s d. s\<lparr>durationSec := d\<rparr>) ss ds))
      = mset (map timestamp ss)"
    by simp
qed

theorem durations_are_irrelevant_witness:
  "length [None, Some (Finite (- 5)), Some NaN]
     = length [sessionAt 1705338000000, sessionAt 1704906000000, sessionAt 1704906000001]
   \<and> calculateConsistencyScore hostUTC
       \<lparr>sessions = map2 (\<lambda>s d. s\<lparr>durationSec := d\<rparr>)
          [sessionAt 1705338000000, sessionAt 1704906000000, sessionAt 1704906000001]
          [None, Some (Finite (- 5)), Some NaN],
        referenceDate = None, timezone = None\<rparr>
     = calculateConsistencyScore hostUTC
       \<lparr>sessions = [sessionAt 1705338000000, sessionAt 1704906000000, sessionAt 1704906000001],
        referenceDate = None, timezone = None\<rparr>"
proof -
  have h: "length [None, Some (Finite (- 5)), Some NaN]
     = length [sessionAt 1705338000000, sessionAt 1704906000000, sessionAt 1704906000001]"
    by simp
  show ?thesis
    by (rule conjI [OF h durations_are_irrelevant [OF h]])
qed

section \<open>Sessions on the same day\<close>

lemma setDateBack_valid: "\<exists>t'. setDateBack e (Some t) k = Some t'"
  by (simp add: setDateBack_def Let_def)

lemma streakLoop_succeeds:
  assumes "zones e tz = Some off"
  shows "\<exists>r. streakLoop e tz S n streak (Some t) = Inr r"
proof (induction n arbitrary: streak t)
  case 0
  show ?case by simp
next
  case (Suc n)
  obtain t' where "setDateBack e (Some t) 1 = Some t'"
    using setDateBack_valid by blast
  then show ?case
    using assms Suc.IH by (simp add: toLocalDateString_valid)
qed

lemma chartLoop_succeeds:
  assumes "zones e tz = Some off"
  shows "\<exists>chart. chartLoop e tz m (Some t) n = Inr chart"
proof (induction n)
  case 0
  show ?case by simp
next
  case (Suc n)
  obtain t' where "setDateBack e (Some t) (int n) = Some t'"
    using setDateBack_valid by blast
  then show ?case
    using assms Suc.IH by (auto simp: toLocalDateString_valid)
qed

lemma calculateMetadata_succeeds:
  assumes "zones e tz = Some off"
  shows "\<exists>m. calculateMetadata e ads (Some t) tz = Inr m
           \<and> activeDays m = int (length ads)
           \<and> totalSessions m = foldl (\<lambda>sum d. sum + sessionCount d) 0 ads"
  using assms by (simp add: calculateMetadata_def toLocalDateString_valid Let_def)

lemma scoreDays_succeeds:
  assumes "zones e tz = Some off"
  shows "\<exists>out. scoreDays e ads (Some t) tz = Inr out
           \<and> activeDays (metadata out) = int (length ads)
           \<and> totalSessions (metadata out) = foldl (\<lambda>sum d. sum + sessionCount d) 0 ads"
proof -
  obtain m where m: "calculateMetadata e ads (Some t) tz = Inr m"
    "activeDays m = int (length ads)"
    "totalSessions m = foldl (\<lambda>sum d. sum + sessionCount d) 0 ads"
    using calculateMetadata_succeeds [OF assms] by blast
  obtain r where "streakLoop e tz (set (map date ads)) WINDOW_DAYS 0
      (Some (parseDateString ((t + off t) div msPerDay))) = Inr r"
    using streakLoop_succeeds [OF assms] by blast
  then have "\<exists>streak. calculateStreakBonus e ads (Some t) tz = Inr streak"
    using assms by (simp add: calculateStreakBonus_def toLocalDateString_valid)
  then obtain streak where s: "calculateStreakBonus e ads (Some t) tz = Inr streak"
    by blast
  obtain chart where c: "generateChartData e ads (Some t) tz = Inr chart"
    unfolding generateChartData_def using chartLoop_succeeds [OF assms] by blast
  show ?thesis
    using m s c by (simp add: scoreDays_def Let_def)
qed

lemma total_sum_list:
  "foldl (\<lambda>sum d. sum + sessionCount d) a ads = a + sum_list (map sessionCount ads)"
  by (induction ads arbitrary: a) simp_all

lemma sum_list_counts:
  "sum_list (map (\<lambda>k. int (count_list ds k)) (sorted_list_of_set (set ds))) = int (length ds)"
proof -
  have "sum_list (map (\<lambda>k. int (count_list ds k)) (sorted_list_of_set (set ds)))
      = (\<Sum>k \<in> set ds. int (count_list ds k))"
    by (simp add: sum_list_distinct_conv_sum_set)
  also have "\<dots> = int (\<Sum>k \<in> set ds. count_list ds k)"
    by simp
  also have "\<dots> = int (length ds)"
    by (simp add: sum_count_set)
  finally show ?thesis .
qed

lemma filter_distinct_key:
  "distinct (map f xs) \<Longrightarrow> x \<in> set xs \<Longrightarrow> filter (\<lambda>b. f b = f x) xs = [x]"
proof (induction xs)
  case Nil
  then show ?case by simp
next
  case (Cons a xs)
  show ?case
  proof (cases "a = x")
    case True
    then have "f x \<notin> f ` set xs"
      using Cons.prems(1) by simp
    then have "\<forall>b \<in> set xs. f b \<noteq> f x"
      by (metis imageI)
    then have "filter (\<lambda>b. f b = f x) xs = []"
      by (simp add: filter_empty_conv)
    with True show ?thesis by simp
  next
    case False
    then have "x \<in> set xs" using Cons.prems(2) by simp
    moreover from this have "f a \<noteq> f x" using Cons.prems(1) by auto
    ultimately show ?thesis using Cons by simp
  qed
qed

text \<open>
  Claim C8. Let \<open>n \<ge> 1\<close> sessions of the list fall on the civil day \<open>d\<close> of the zone,
  all timestamps being valid. Then the buckets hold exactly one entry for \<open>d\<close>, with
  the session count \<open>n\<close>; the call succeeds; \<open>activeDays\<close> is 1 plus the number of
  other days that have a session, and \<open>totalSessions\<close> is \<open>n\<close> plus the number of
  sessions on other days.
\<close>

theorem same_day_sessions_collapse:
  assumes z: "zones e tz = Some off"
    and v: "\<forall>s \<in> set ss. timestamp s \<noteq> None"
    and n: "n = length (filter (\<lambda>s. toLocalDateString e (timestamp s) tz = Inr d) ss)"
    and pos: "1 \<le> n"
  shows "\<exists>ads b out.
           groupSessionsByDay e ss tz = Inr ads
         \<and> filter (\<lambda>b. date b = d) ads = [b] \<and> sessionCount b = int n
         \<and> calculateConsistencyScore e
              \<lparr>sessions = ss, referenceDate = Some (Some t), timezone = Some tz\<rparr> = Inr out
         \<and> activeDays (metadata out)
              = 1 + int (card {d'. d' \<noteq> d \<and> (\<exists>s \<in> set ss. toLocalDateString e (timestamp s) tz = Inr d')})
         \<and> totalSessions (metadata out)
              = int n + int (length (filter (\<lambda>s. toLocalDateString e (timestamp s) tz \<noteq> Inr d) ss))"
proof -
  define ds where "ds = map (\<lambda>s. dayOf off (timestamp s)) ss"
  have fmt: "toLocalDateString e (timestamp s) tz = Inr (dayOf off (timestamp s))"
    if "s \<in> set ss" for s
    using that z v by (simp add: toLocalDateString_dayOf)
  from groupSessionsByDay_counts [OF z v] obtain ads where ads:
    "groupSessionsByDay e ss tz = Inr ads" "map date ads = sorted_list_of_set (set ds)"
    "\<forall>b \<in> set ads. sessionCount b = int (count_list ds (date b))"
    by (auto simp: ds_def)
  have n_count: "n = count_list ds d"
  proof -
    have "filter (\<lambda>s. toLocalDateString e (timestamp s) tz = Inr d) ss
        = filter (\<lambda>s. d = dayOf off (timestamp s)) ss"
      by (rule filter_cong) (auto simp: fmt)
    then show ?thesis
      by (simp add: n ds_def count_list_eq_length_filter comp_def)
  qed
  then have "d \<in> set ds"
    using pos count_notin [of d ds] by (cases "d \<in> set ds") simp_all
  then have "d \<in> set (map date ads)"
    by (simp add: ads(2))
  then obtain b where b: "b \<in> set ads" "date b = d" by auto
  have "distinct (map date ads)" by (simp add: ads(2))
  from filter_distinct_key [OF this b(1)] have single: "filter (\<lambda>x. date x = d) ads = [b]"
    by (simp add: b(2))
  have cnt: "sessionCount b = int n"
    using ads(3) b n_count by simp
  from scoreDays_succeeds [OF z, of ads t] obtain out where out:
    "scoreDays e ads (Some t) tz = Inr out" "activeDays (metadata out) = int (length ads)"
    "totalSessions (metadata out) = foldl (\<lambda>sum d. sum + sessionCount d) 0 ads"
    by blast
  have res: "calculateConsistencyScore e
      \<lparr>sessions = ss, referenceDate = Some (Some t), timezone = Some tz\<rparr> = Inr out"
    by (simp add: calculateConsistencyScore_scoreDays ads(1) out(1))
  have "length (map date ads) = card (set ds)"
    by (simp only: ads(2) length_sorted_list_of_set)
  then have "length ads = card (set ds)"
    by simp
  moreover have "{d'. d' \<noteq> d \<and> (\<exists>s \<in> set ss. toLocalDateString e (timestamp s) tz = Inr d')}
      = set ds - {d}"
    using fmt by (auto simp: ds_def)
  moreover have "card (set ds) = 1 + card (set ds - {d})"
    using \<open>d \<in> set ds\<close> card.remove [of "set ds" d] by simp
  ultimately have act: "activeDays (metadata out)
      = 1 + int (card {d'. d' \<noteq> d \<and> (\<exists>s \<in> set ss. toLocalDateString e (timestamp s) tz = Inr d')})"
    by (simp add: out(2))
  have "map sessionCount ads = map (\<lambda>k. int (count_list ds k)) (map date ads)"
    using ads(3) by simp
  then have "sum_list (map sessionCount ads) = int (length ds)"
    by (simp only: ads(2) sum_list_counts)
  moreover have "length ds
      = n + length (filter (\<lambda>s. toLocalDateString e (timestamp s) tz \<noteq> Inr d) ss)"
    using sum_length_filter_compl [of "\<lambda>s. toLocalDateString e (timestamp s) tz = Inr d" ss]
    by (simp add: n ds_def)
  ultimately have tot: "totalSessions (metadata out)
      = int n + int (length (filter (\<lambda>s. toLocalDateString e (timestamp s) tz \<noteq> Inr d) ss))"
    by (simp add: out(3) total_sum_list)
  show ?thesis
    using ads(1) single cnt res act tot by (intro exI conjI)
qed

theorem same_day_sessions_collapse_witness:
  "zones hostUTC ''UTC'' = Some (\<lambda>t. 0)
   \<and> timestamp (sessionAt 1705338000000) \<noteq> None
   \<and> (2::nat) = length (filter (\<lambda>s. toLocalDateString hostUTC (timestamp s) ''UTC'' = Inr 19737)
            [sessionAt 1705338000000, sessionAt 1705338000000])
   \<and> (\<exists>ads b out.
           groupSessionsByDay hostUTC [sessionAt 1705338000000, sessionAt 1705338000000] ''UTC''
             = Inr ads
         \<and> filter (\<lambda>b. date b = 19737) ads = [b] \<and> sessionCount b = int 2
         \<and> calculateConsistencyScore hostUTC
              \<lparr>sessions = [sessionAt 1705338000000, sessionAt 1705338000000],
               referenceDate = Some (Some 1705341600000), timezone = Some ''UTC''\<rparr> = Inr out
         \<and> activeDays (metadata out)
              = 1 + int (card {d'. d' \<noteq> 19737 \<and>
                  (\<exists>s \<in> set [sessionAt 1705338000000, sessionAt 1705338000000].
                     toLocalDateString hostUTC (timestamp s) ''UTC'' = Inr d')})
         \<and> totalSessions (metadata out)
              = int 2 + int (length (filter
                  (\<lambda>s. toLocalDateString hostUTC (timestamp s) ''UTC'' \<noteq> Inr 19737)
                  [sessionAt 1705338000000, sessionAt 1705338000000])))"
proof -
  have h1: "zones hostUTC ''UTC'' = Some (\<lambda>t. 0)"
    by (simp add: hostUTC_def exampleZones_def)
  have h2: "\<forall>s \<in> set [sessionAt 1705338000000, sessionAt 1705338000000]. timestamp s \<noteq> None"
    by (simp add: sessionAt_def)
  have h3: "(2::nat) = length (filter (\<lambda>s. toLocalDateString hostUTC (timestamp s) ''UTC'' = Inr 19737)
            [sessionAt 1705338000000, sessionAt 1705338000000])"
    by (simp add: toLocalDateString_def h1 sessionAt_def msPerDay_def)
  have h4: "1 \<le> (2::nat)" by simp
  show ?thesis
    using h1 h2 h3 same_day_sessions_collapse [OF h1 h2 h3 h4, of 1705341600000]
    by simp
qed

section \<open>Bounds of the components\<close>

lemma dayDiff_eq: "dayDiff p c = c - p"
proof -
  have "parseDateString c - parseDateString p = (c - p) * msPerDay"
    by (simp add: parseDateString_def left_diff_distrib)
  moreover have "msPerDay \<noteq> 0"
    by (simp add: msPerDay_def)
  ultimately show ?thesis
    by (simp add: dayDiff_def)
qed

lemma dayGaps_nonneg:
  "sorted (map date ads) \<Longrightarrow> \<forall>g \<in> set (dayGaps ads). 0 \<le> g"
  by (induction ads rule: dayGaps.induct) (simp_all add: dayDiff_eq)

lemma dayGaps_nonempty: "2 \<le> length ads \<Longrightarrow> dayGaps ads \<noteq> []"
  by (cases ads rule: dayGaps.cases) simp_all

lemma calculateDistributionBonus_bounds:
  assumes "sorted (map date ads)"
  shows "0 \<le> calculateDistributionBonus ads \<and> calculateDistributionBonus ads \<le> 25"
proof (cases "length ads < 2")
  case True
  then show ?thesis by (simp add: calculateDistributionBonus_def)
next
  case False
  then have "dayGaps ads \<noteq> []" by (simp add: dayGaps_nonempty)
  then have "Max (set (dayGaps ads)) \<in> set (dayGaps ads)"
    using Max_in [of "set (dayGaps ads)"] by simp
  then have "0 \<le> Max (set (dayGaps ads))"
    using dayGaps_nonneg [OF assms] by blast
  then have "0 \<le> min (real_of_int (Max (set (dayGaps ads))) / real WINDOW_DAYS) 1"
    by (simp add: WINDOW_DAYS_def)
  moreover have "min (real_of_int (Max (set (dayGaps ads))) / real WINDOW_DAYS) 1 \<le> 1"
    by simp
  ultimately show ?thesis
    using False by (simp add: calculateDistributionBonus_def Let_def)
qed

lemma streakLoop_grows:
  "streakLoop e tz S n streak d = Inr r \<Longrightarrow> streak \<le> r"
proof (induction n arbitrary: streak d)
  case 0
  then show ?case by simp
next
  case (Suc n)
  show ?case
  proof (cases "toLocalDateString e d tz")
    case (Inl err)
    with Suc.prems show ?thesis by simp
  next
    case (Inr dateStr)
    show ?thesis
    proof (cases "dateStr \<in> S")
      case True
      with Suc.prems Inr have "streakLoop e tz S n (streak + 1) (setDateBack e d 1) = Inr r"
        by simp
      from Suc.IH [OF this] show ?thesis by simp
    next
      case False
      show ?thesis
      proof (cases "streak > 0")
        case True
        with Suc.prems Inr False show ?thesis by simp
      next
        case neg: False
        with Suc.prems Inr False
        have "streakLoop e tz S n streak (setDateBack e d 1) = Inr r"
          by simp
        from Suc.IH [OF this] show ?thesis .
      qed
    qed
  qed
qed

lemma calculateStreakBonus_bounds:
  assumes "calculateStreakBonus e ads r tz = Inr v"
  shows "0 \<le> v \<and> v \<le> 10"
proof (cases "length ads = 0")
  case True
  with assms show ?thesis by (simp add: calculateStreakBonus_def)
next
  case False
  with assms obtain streak where "0 \<le> streak" "v = min (real_of_int (streak * 2)) 10"
    by (auto simp: calculateStreakBonus_def split: sum.splits dest: streakLoop_grows)
  then show ?thesis by simp
qed

lemma calculateRecencyBonus_bounds:
  "0 \<le> calculateRecencyBonus m \<and> calculateRecencyBonus m \<le> 5"
  by (simp add: calculateRecencyBonus_def)

lemma calculateMetadata_activeDays:
  "calculateMetadata e ads r tz = Inr m \<Longrightarrow> activeDays m = int (length ads)"
  by (auto simp: calculateMetadata_def Let_def split: if_splits sum.splits)

lemma groupSessionsByDay_sorted:
  "groupSessionsByDay e ss tz = Inr ads \<Longrightarrow> sorted (map date ads)"
  by (auto simp: groupSessionsByDay_def sorted_sort_key split: sum.splits)

lemma scoreDays_Inr:
  assumes "scoreDays e ads r tz = Inr out"
  shows "\<exists>m streak chart.
           calculateMetadata e ads r tz = Inr m
         \<and> calculateStreakBonus e ads r tz = Inr streak
         \<and> generateChartData e ads r tz = Inr chart
         \<and> metadata out = m \<and> chartData out = chart
         \<and> breakdown out = (calculateScoreBreakdown ads m)\<lparr>streakBonus := streak\<rparr>"
proof (cases "calculateMetadata e ads r tz")
  case (Inl err)
  with assms show ?thesis by (simp add: scoreDays_def)
next
  case m: (Inr m)
  show ?thesis
  proof (cases "calculateStreakBonus e ads r tz")
    case (Inl err)
    with assms m show ?thesis by (simp add: scoreDays_def)
  next
    case s: (Inr streak)
    show ?thesis
    proof (cases "generateChartData e ads r tz")
      case (Inl err)
      with assms m s show ?thesis by (simp add: scoreDays_def)
    next
      case c: (Inr chart)
      from assms have "out = \<lparr>score = score out, explanations = explanations out,
          chartData = chart, metadata = m,
          breakdown = (calculateScoreBreakdown ads m)\<lparr>streakBonus := streak\<rparr>\<rparr>"
        by (simp add: scoreDays_def m s c Let_def) (metis ConsistencyScore.select_convs)
      then have "metadata out = m" "chartData out = chart"
        "breakdown out = (calculateScoreBreakdown ads m)\<lparr>streakBonus := streak\<rparr>"
        by (metis ConsistencyScore.select_convs)+
      with m s c show ?thesis by simp
    qed
  qed
qed

lemma oneSession: "calculateConsistencyScore hostUTC oneSessionInput = Inr oneSessionResult"
  by code_simp

text \<open>
  Claim C1: every component of the breakdown lies within its bound, the base score between
  0 and 60. The streak bonus is capped by \<open>Math.min\<close>, the distribution bonus caps the
  longest gap at the length of the window, and the total is clamped; the base score alone
  is not capped, and the sessions are not restricted to the window. One session at noon
  UTC on each of the 29 days from 2023-12-18 to 2024-01-15, scored at 2024-01-15T18:00Z,
  gives the base score 29/28 * 60 = 435/7, which is more than 60.
\<close>

theorem base_score_above_60:
  "map_sum id (baseScore \<circ> breakdown)
     (calculateConsistencyScore hostUTC
        \<lparr>sessions = dailySessions 19709 19737, referenceDate = None, timezone = None\<rparr>)
     = Inr (435 / 7)
   \<and> \<not> (435 / 7 \<le> (60::real))"
  by code_simp

text \<open>
  What holds of the breakdown whenever a result is returned: the distribution bonus lies
  between 0 and 25, the streak bonus between 0 and 10 and the recency bonus between 0 and
  5; the base score is \<open>activeDays / 28 * 60\<close>, which is at least 0, and at most 60
  when there are at most 28 active days.
\<close>

theorem breakdown_bounds:
  assumes "calculateConsistencyScore e input = Inr out"
  shows "baseScore (breakdown out) = real_of_int (activeDays (metadata out)) / 28 * 60
       \<and> 0 \<le> baseScore (breakdown out)
       \<and> (activeDays (metadata out) \<le> 28 \<longrightarrow> baseScore (breakdown out) \<le> 60)
       \<and> 0 \<le> distributionBonus (breakdown out) \<and> distributionBonus (breakdown out) \<le> 25
       \<and> 0 \<le> streakBonus (breakdown out) \<and> streakBonus (breakdown out) \<le> 10
       \<and> 0 \<le> recencyBonus (breakdown out) \<and> recencyBonus (breakdown out) \<le> 5"
proof -
  define tz where "tz = (case timezone input of None \<Rightarrow> ''UTC'' | Some z \<Rightarrow> z)"
  define ref where "ref = (case referenceDate input of None \<Rightarrow> Some (now e) | Some d \<Rightarrow> d)"
  from assms obtain ads where
    g: "groupSessionsByDay e (sessions input) tz = Inr ads"
    and sd: "scoreDays e ads ref tz = Inr out"
    by (auto simp: calculateConsistencyScore_scoreDays tz_def ref_def split: sum.splits)
  from scoreDays_Inr [OF sd] obtain m streak where
    m: "calculateMetadata e ads ref tz = Inr m"
    and s: "calculateStreakBonus e ads ref tz = Inr streak"
    and b: "breakdown out = (calculateScoreBreakdown ads m)\<lparr>streakBonus := streak\<rparr>"
    and md: "metadata out = m"
    by blast
  have act: "activeDays (metadata out) = int (length ads)"
    using m md by (simp add: calculateMetadata_activeDays)
  have base: "baseScore (breakdown out) = real (length ads) / 28 * 60"
    by (simp add: b calculateScoreBreakdown_def calculateBaseScore_def WINDOW_DAYS_def)
  have c1: "baseScore (breakdown out) = real_of_int (activeDays (metadata out)) / 28 * 60"
    by (simp add: act base)
  have c2: "0 \<le> baseScore (breakdown out)"
    by (simp add: base)
  have c3: "activeDays (metadata out) \<le> 28 \<longrightarrow> baseScore (breakdown out) \<le> 60"
    by (simp add: act base)
  have "distributionBonus (breakdown out) = calculateDistributionBonus ads"
    by (simp add: b calculateScoreBreakdown_def)
  then have c4: "0 \<le> distributionBonus (breakdown out)"
    and c5: "distributionBonus (breakdown out) \<le> 25"
    using calculateDistributionBonus_bounds [OF groupSessionsByDay_sorted [OF g]] by simp_all
  have "streakBonus (breakdown out) = streak"
    by (simp add: b)
  then have c6: "0 \<le> streakBonus (breakdown out)" and c7: "streakBonus (breakdown out) \<le> 10"
    using calculateStreakBonus_bounds [OF s] by simp_all
  have "recencyBonus (breakdown out) = calculateRecencyBonus m"
    by (simp add: b calculateScoreBreakdown_def)
  then have c8: "0 \<le> recencyBonus (breakdown out)" and c9: "recencyBonus (breakdown out) \<le> 5"
    using calculateRecencyBonus_bounds [of m] by simp_all
  from c1 c2 c3 c4 c5 c6 c7 c8 c9 show ?thesis
    by (intro conjI)
qed

theorem breakdown_bounds_witness:
  "calculateConsistencyScore hostUTC oneSessionInput = Inr oneSessionResult
   \<and> baseScore (breakdown oneSessionResult)
       = real_of_int (activeDays (metadata oneSessionResult)) / 28 * 60
   \<and> 0 \<le> baseScore (breakdown oneSessionResult)
   \<and> activeDays (metadata oneSessionResult) \<le> 28
   \<and> baseScore (breakdown oneSessionResult) \<le> 60
   \<and> 0 \<le> distributionBonus (breakdown oneSessionResult)
   \<and> distributionBonus (breakdown oneSessionResult) \<le> 25
   \<and> 0 \<le> streakBonus (breakdown oneSessionResult)
   \<and> streakBonus (breakdown oneSessionResult) \<le> 10
   \<and> 0 \<le> recencyBonus (breakdown oneSessionResult)
   \<and> recencyBonus (breakdown oneSessionResult) \<le> 5"
proof -
  have few: "activeDays (metadata oneSessionResult) \<le> 28"
    by (simp add: oneSessionResult_def)
  from breakdown_bounds [OF oneSession] few oneSession show ?thesis
    by blast
qed

section \<open>The streak walk and the chart across time zones\<close>

text \<open>
  When the offset of the zone is constant and between 0 and 24 hours (UTC and the zones east
  of it that have no clock changes), and the offset of the process is constant, the loop of
  \<open>calculateStreakBonus\<close> is the walk of the specification; when both offsets are
  constant, whatever their values, the chart has the 28 civil dates that end with the
  reference date. The entries of the chart always report the buckets of their dates.
\<close>

lemma toLocalDateString_midnight:
  assumes "zones e tz = Some (\<lambda>t. c)" and "0 \<le> c" and "c < msPerDay"
  shows "toLocalDateString e (Some (parseDateString d)) tz = Inr d"
proof -
  have "(d * msPerDay + c) div msPerDay = d"
    using assms(2,3) by (simp add: div_pos_pos_trivial)
  then show ?thesis
    using assms(1) by (simp add: toLocalDateString_def parseDateString_def)
qed

lemma setDateBack_fixed_host:
  assumes "localTZA e = (\<lambda>t isUTC. h)"
  shows "setDateBack e (Some t) k = Some (t - k * msPerDay)"
  by (simp add: setDateBack_def assms Let_def)

lemma streakLoop_fixed_offsets:
  assumes "zones e tz = Some (\<lambda>t. c)" and "0 \<le> c" and "c < msPerDay"
    and "localTZA e = (\<lambda>t isUTC. h)"
  shows "streakLoop e tz S n k (Some (parseDateString d)) = Inr (specStreakWalk S n k d)"
proof (induction n arbitrary: k d)
  case 0
  show ?case by simp
next
  case (Suc n)
  have prevDay: "setDateBack e (Some (parseDateString d)) 1 = Some (parseDateString (d - 1))"
    by (simp add: setDateBack_fixed_host [OF assms(4)] parseDateString_def left_diff_distrib)
  show ?case
    by (simp add: toLocalDateString_midnight [OF assms(1-3)] prevDay Suc.IH)
qed

lemma calculateStreakBonus_fixed_offsets:
  assumes "zones e tz = Some (\<lambda>t. c)" and "0 \<le> c" and "c < msPerDay"
    and "localTZA e = (\<lambda>t isUTC. h)"
    and "groupSessionsByDay e ss tz = Inr ads"
  shows "calculateStreakBonus e ads (Some t) tz = specStreakBonus e ss (Some t) tz"
proof (cases "ads = []")
  case True
  then show ?thesis
    using assms(1,5)
    by (simp add: calculateStreakBonus_def specStreakBonus_def toLocalDateString_valid
        eval_nat_numeral)
next
  case False
  then show ?thesis
    using assms(1,5)
    by (simp add: calculateStreakBonus_def specStreakBonus_def toLocalDateString_valid
        streakLoop_fixed_offsets [OF assms(1-4)] WINDOW_DAYS_def)
qed

lemma chartLoop_fixed_offsets:
  assumes "zones e tz = Some (\<lambda>t. c)" and "localTZA e = (\<lambda>t isUTC. h)"
  shows "\<exists>chart. chartLoop e tz m (Some t) n = Inr chart
           \<and> map chartDate chart = [(t + c) div msPerDay - int n + 1..(t + c) div msPerDay]"
proof (induction n)
  case 0
  show ?case by simp
next
  case (Suc n)
  then obtain chart where chart: "chartLoop e tz m (Some t) n = Inr chart"
    "map chartDate chart = [(t + c) div msPerDay - int n + 1..(t + c) div msPerDay]"
    by blast
  have "(t - int n * msPerDay + c) div msPerDay = (t + c) div msPerDay - int n"
  proof -
    have "msPerDay \<noteq> 0" by (simp add: msPerDay_def)
    then have "((t + c) + (- int n) * msPerDay) div msPerDay = - int n + (t + c) div msPerDay"
      by (rule div_mult_self1)
    moreover have "t - int n * msPerDay + c = (t + c) + (- int n) * msPerDay" by simp
    ultimately show ?thesis by (simp only:)
  qed
  then have fmt: "toLocalDateString e (setDateBack e (Some t) (int n)) tz
      = Inr ((t + c) div msPerDay - int n)"
    by (simp add: setDateBack_fixed_host [OF assms(2)] toLocalDateString_valid [OF assms(1)])
  have "[(t + c) div msPerDay - int (Suc n) + 1..(t + c) div msPerDay]
      = ((t + c) div msPerDay - int n) # [(t + c) div msPerDay - int n + 1..(t + c) div msPerDay]"
    by (simp add: upto_rec1)
  then show ?case
    using chart fmt by simp
qed

lemma generateChartData_fixed_offsets:
  assumes "zones e tz = Some (\<lambda>t. c)" and "localTZA e = (\<lambda>t isUTC. h)"
  shows "map_sum id (map chartDate) (generateChartData e ads (Some t) tz)
           = specChartDates e (Some t) tz"
proof -
  obtain chart where "chartLoop e tz (foldl (\<lambda>m d. m(date d \<mapsto> d)) Map.empty ads) (Some t) 28
      = Inr chart"
    "map chartDate chart = [(t + c) div msPerDay - int 28 + 1..(t + c) div msPerDay]"
    using chartLoop_fixed_offsets [OF assms] by blast
  then show ?thesis
    by (simp add: generateChartData_def specChartDates_def WINDOW_DAYS_def
        toLocalDateString_valid [OF assms(1)])
qed

lemma chartLoop_entries:
  "chartLoop e tz m r n = Inr chart \<Longrightarrow>
   length chart = n
   \<and> (\<forall>c \<in> set chart. hasActivity c = (m (chartDate c) \<noteq> None)
          \<and> chartSessionCount c = (case m (chartDate c) of None \<Rightarrow> 0 | Some day \<Rightarrow> sessionCount day))"
proof (induction n arbitrary: chart)
  case 0
  then show ?case by auto
next
  case (Suc n)
  from Suc.prems obtain dateStr rest where
    "toLocalDateString e (setDateBack e r (int n)) tz = Inr dateStr"
    "chartLoop e tz m r n = Inr rest"
    "chart = \<lparr>chartDate = dateStr, hasActivity = (m dateStr \<noteq> None),
              chartSessionCount = (case m dateStr of None \<Rightarrow> 0 | Some day \<Rightarrow> sessionCount day)\<rparr>
            # rest"
    by (auto split: sum.splits)
  with Suc.IH [of rest] show ?case by simp
qed

text \<open>
  Claim C2 describes a walk that starts at the civil date of the reference instant.
  \<open>calculateStreakBonus\<close> turns that civil date into midnight UTC and formats it again in
  the time zone; west of Greenwich this is the evening of the day before, so the walk
  starts one day early and never looks at the reference day itself. With one session, at
  12:00 in New York on 2024-01-15, and the reference instant 13:00 of the same day, both
  on the civil day 19737, the code finds no streak and gives the bonus 0; the walk of the
  claim counts one day and gives 2.
\<close>

theorem streak_lost_west_of_greenwich:
  "map_sum id (streakBonus \<circ> breakdown)
     (calculateConsistencyScore hostUTC
        \<lparr>sessions = [sessionAt 1705338000000], referenceDate = Some (Some 1705341600000),
         timezone = Some ''America/New_York''\<rparr>)
     = Inr 0
   \<and> specStreakBonus hostUTC [sessionAt 1705338000000] (Some 1705341600000) ''America/New_York''
     = Inr 2
   \<and> toLocalDateString hostUTC (Some 1705338000000) ''America/New_York'' = Inr 19737
   \<and> toLocalDateString hostUTC (Some 1705341600000) ''America/New_York'' = Inr 19737"
  by code_simp

text \<open>
  Claim C6 asks for the 28 civil dates that end with the reference date.
  \<open>generateChartData\<close> steps back with \<open>setDate\<close> in the local time of the process
  and formats in the time zone of the caller. With the process in UTC, the zone
  \<open>America/New_York\<close> and the reference instant 2024-03-11T04:30Z (00:30 in New York, the
  night after the clocks went forward), one step back is 23:30 on 2024-03-09 in New York:
  the chart has the days 19765 to 19791 and 19793, without 2024-03-10 (day 19792), and
  a session at noon of 2024-03-10 appears nowhere in it.
\<close>

theorem chart_skips_day_of_clock_change:
  "map_sum id (map chartDate \<circ> chartData)
     (calculateConsistencyScore hostUTC
        \<lparr>sessions = [sessionAt 1710086400000], referenceDate = Some (Some 1710131400000),
         timezone = Some ''America/New_York''\<rparr>)
     = Inr ([19765..19791] @ [19793])
   \<and> specChartDates hostUTC (Some 1710131400000) ''America/New_York'' = Inr [19766..19793]
   \<and> toLocalDateString hostUTC (Some 1710086400000) ''America/New_York'' = Inr 19792
   \<and> map_sum id (filter hasActivity \<circ> chartData)
     (calculateConsistencyScore hostUTC
        \<lparr>sessions = [sessionAt 1710086400000], referenceDate = Some (Some 1710131400000),
         timezone = Some ''America/New_York''\<rparr>)
     = Inr []"
  by code_simp

end
